theory Spec2Isabelle
  imports Complex_Main "HOL-Library.Word" "HOL-Library.Multiset" "HOL-Library.Sublist"
    "HOL-Library.Log_Nat"
begin

text \<open>
  A shallow embedding of the domain service (\<open>services/TaskService.ts\<close>) and of the
  local-storage repository (\<open>repositories/TaskRepository.ts\<close>, class
  \<open>LocalStorageTaskRepository\<close>) of the Task-Manager application, with the properties that
  its specification states of them. The clock, the random generator and the parsers of
  the platform are arguments of the functions that read them; a thrown exception is the
  left summand of the result.
\<close>

section \<open>JavaScript strings\<close>

text \<open>
  A JavaScript string is a sequence of UTF-16 code units and \<open>length\<close> counts code units.
  \<open>js\<close> turns an ASCII literal into such a sequence.
\<close>

type_synonym code_unit = "16 word"
type_synonym jsstring = "code_unit list"

definition js :: "string \<Rightarrow> jsstring" where
  "js s = map of_char s"

text \<open>
  The code units that \<open>String.prototype.trim\<close> strips and that the regular expression
  white-space class matches: ECMAScript WhiteSpace (TAB, VT, FF, ZWNBSP and the Unicode space
  separators) together with LineTerminator (LF, CR, LS, PS).
\<close>

definition isWhiteSpace :: "code_unit \<Rightarrow> bool" where
  "isWhiteSpace c \<longleftrightarrow>
     c \<in> {0x0009, 0x000A, 0x000B, 0x000C, 0x000D, 0x0020, 0x00A0, 0x1680,
          0x2028, 0x2029, 0x202F, 0x205F, 0x3000, 0xFEFF}
     \<or> (0x2000 \<le> c \<and> c \<le> 0x200A)"

text \<open>\<open>title.trim()\<close>\<close>

definition trim :: "jsstring \<Rightarrow> jsstring" where
  "trim s = rev (dropWhile isWhiteSpace (rev (dropWhile isWhiteSpace s)))"

text \<open>
  The global replacement of the white-space runs in \<open>sanitizeTitle\<close>: scanning from the
  left, every maximal run of white space is replaced by one space (U+0020), every other
  code unit is copied.
\<close>

function replaceWhiteSpaceRuns :: "jsstring \<Rightarrow> jsstring" where
  "replaceWhiteSpaceRuns [] = []"
| "replaceWhiteSpaceRuns (c # cs) =
     (if isWhiteSpace c then 0x0020 # replaceWhiteSpaceRuns (dropWhile isWhiteSpace cs)
      else c # replaceWhiteSpaceRuns cs)"
  by pat_completeness auto
termination
  by (relation "measure length") (auto simp: length_dropWhile_le less_Suc_eq_le)

text \<open>Decimal digits of a number, as \<open>Number.prototype.toString\<close> prints an integer.\<close>

function digits :: "nat \<Rightarrow> jsstring" where
  "digits n = (if n < 10 then [0x0030 + of_nat n]
               else digits (n div 10) @ [0x0030 + of_nat (n mod 10)])"
  by pat_completeness auto
termination
  by (relation "measure id") auto

declare digits.simps [simp del]

definition numberToString :: "int \<Rightarrow> jsstring" where
  "numberToString n = (if n < 0 then 0x002D # digits (nat (- n)) else digits (nat n))"

section \<open>Core domain types (types/core.ts)\<close>

text \<open>
  A \<open>Date\<close> holds a time value: an integer number of milliseconds since the epoch, or
  NaN (an Invalid Date), which is \<open>None\<close>.
\<close>

datatype Date = Date (getTime: "int option")

datatype TaskStatus = Pending | Completed

datatype FilterType = FilterAll | FilterActive | FilterCompleted

type_synonym TaskId = jsstring

record TaskEntity =
  taskId :: TaskId
  title :: jsstring
  status :: TaskStatus
  createdAt :: Date
  updatedAt :: Date

record TaskCreationData =
  creationTitle :: jsstring

text \<open>An optional property that is absent (\<open>undefined\<close>) is \<open>None\<close>.\<close>

record TaskUpdateData =
  updateTitle :: "jsstring option"
  updateStatus :: "TaskStatus option"

record TaskStats =
  total :: int
  completed :: int
  pending :: int
  completionRate :: int

record TaskFilter =
  filterType :: FilterType
  predicate :: "TaskEntity \<Rightarrow> bool"

text \<open>A thrown \<open>Error\<close> object: its \<open>name\<close> and its \<open>message\<close>.\<close>

datatype JSError = JSError (errorName: string) (errorMessage: string)

definition Error :: "string \<Rightarrow> JSError" where
  "Error msg = JSError ''Error'' msg"

section \<open>TaskService (services/TaskService.ts)\<close>

definition sanitizeTitle :: "jsstring \<Rightarrow> jsstring" where
  "sanitizeTitle t = replaceWhiteSpaceRuns (trim t)"

definition validateTitle :: "jsstring \<Rightarrow> bool" where
  "validateTitle t \<longleftrightarrow> length t > 0 \<and> length t \<le> 255"

text \<open>
  \<open>generateId\<close> reads the clock (\<open>Date.now()\<close>) and the random generator; both readings
  are arguments here, the second one already printed in base 36 and cut to the
  characters 2 to 10.
\<close>

definition generateId :: "int \<Rightarrow> jsstring \<Rightarrow> TaskId" where
  "generateId dateNow randomPart =
     js ''task_'' @ numberToString dateNow @ js ''_'' @ randomPart"

text \<open>
  \<open>createTask\<close>: \<open>now\<close> is the time value of \<open>new Date()\<close>, always a valid date;
  \<open>dateNow\<close> and \<open>randomPart\<close> are the readings of \<open>generateId\<close>.
\<close>

definition createTask ::
  "int \<Rightarrow> int \<Rightarrow> jsstring \<Rightarrow> TaskCreationData \<Rightarrow> JSError + TaskEntity" where
  "createTask now dateNow randomPart data =
     (let t = sanitizeTitle (creationTitle data) in
      if \<not> validateTitle t
      then Inl (Error ''Task title must be between 1 and 255 characters'')
      else Inr \<lparr>taskId = generateId dateNow randomPart, title = t, status = Pending,
                createdAt = Date (Some now), updatedAt = Date (Some now)\<rparr>)"

text \<open>
  \<open>updateTask\<close>: the pair carried through the three steps is the copy \<open>updatedTask\<close>
  and the flag \<open>hasChanges\<close>; \<open>now\<close> is the clock reading of \<open>new Date()\<close> in the last
  step.
\<close>

definition updateTask :: "int \<Rightarrow> TaskEntity \<Rightarrow> TaskUpdateData \<Rightarrow> JSError + TaskEntity" where
  "updateTask now task updates =
     (case (case updateTitle updates of
              None \<Rightarrow> Inr (task, False)
            | Some t \<Rightarrow>
                let sanitizedTitle = sanitizeTitle t in
                if \<not> validateTitle sanitizedTitle
                then Inl (Error ''Task title must be between 1 and 255 characters'')
                else Inr (task\<lparr>title := sanitizedTitle\<rparr>, True)) of
        Inl e \<Rightarrow> Inl e
      | Inr (updatedTask, hasChanges) \<Rightarrow>
          (case (case updateStatus updates of
                   None \<Rightarrow> (updatedTask, hasChanges)
                 | Some s \<Rightarrow>
                     if s \<noteq> status task then (updatedTask\<lparr>status := s\<rparr>, True)
                     else (updatedTask, hasChanges)) of
             (updatedTask', hasChanges') \<Rightarrow>
               Inr (if hasChanges' then updatedTask'\<lparr>updatedAt := Date (Some now)\<rparr>
                    else updatedTask')))"

definition toggleTaskStatus :: "int \<Rightarrow> TaskEntity \<Rightarrow> JSError + TaskEntity" where
  "toggleTaskStatus now task =
     updateTask now task
       \<lparr>updateTitle = None,
        updateStatus = Some (if status task = Pending then Completed else Pending)\<rparr>"

definition getFilter :: "FilterType \<Rightarrow> TaskFilter" where
  "getFilter ft =
     (case ft of
        FilterAll \<Rightarrow> \<lparr>filterType = FilterAll, predicate = (\<lambda>task. True)\<rparr>
      | FilterActive \<Rightarrow> \<lparr>filterType = FilterActive, predicate = (\<lambda>task. status task = Pending)\<rparr>
      | FilterCompleted \<Rightarrow>
          \<lparr>filterType = FilterCompleted, predicate = (\<lambda>task. status task = Completed)\<rparr>)"

definition filterTasks :: "TaskEntity list \<Rightarrow> FilterType \<Rightarrow> TaskEntity list" where
  "filterTasks tasks ft = filter (predicate (getFilter ft)) tasks"

subsection \<open>Numbers\<close>

text \<open>
  The arithmetic of \<open>calculateStats\<close> is IEEE 754 binary64 arithmetic: the exact
  quotient or product is rounded to the nearest double, ties to the even significand.
  A finite double is the rational number it denotes. \<open>ilog2 q\<close> is the binary exponent
  of a positive \<open>q\<close>; a double has 53 significant bits, and below \<open>2 powi (- 1022)\<close>
  the spacing of the doubles stays \<open>2 powi (- 1074)\<close>. Overflow to infinity is not
  represented; the values of \<open>calculateStats\<close> lie between 0 and 100.
\<close>

definition roundTiesToEven :: "rat \<Rightarrow> int" where
  "roundTiesToEven x =
     (let f = \<lfloor>x\<rfloor>; r = x - of_int f in
      if r < 1/2 then f else if 1/2 < r then f + 1 else if even f then f else f + 1)"

function bitLength :: "int \<Rightarrow> int" where
  "bitLength n = (if n \<le> 0 then 0 else 1 + bitLength (n div 2))"
  by pat_completeness auto
termination
  by (relation "measure nat") auto

declare bitLength.simps [simp del]

definition ilog2 :: "rat \<Rightarrow> int" where
  "ilog2 q =
     (case quotient_of q of (a, b) \<Rightarrow>
        let d = bitLength a - bitLength b in
        if 2 powi d \<le> q then d else d - 1)"

definition roundToDouble :: "rat \<Rightarrow> rat" where
  "roundToDouble q =
     (if q = 0 then 0
      else let e = max (ilog2 \<bar>q\<bar> - 52) (- 1074) in
           of_int (roundTiesToEven (q / 2 powi e)) * 2 powi e)"

text \<open>The operators \<open>/\<close> and \<open>*\<close> on finite doubles, the divisor not zero.\<close>

definition numberDivide :: "rat \<Rightarrow> rat \<Rightarrow> rat" where
  "numberDivide a b = roundToDouble (a / b)"

definition numberTimes :: "rat \<Rightarrow> rat \<Rightarrow> rat" where
  "numberTimes a b = roundToDouble (a * b)"

text \<open>
  \<open>Math.round\<close>: the integer closest to the argument, the larger one when two are
  equally close.
\<close>

definition Math_round :: "rat \<Rightarrow> int" where
  "Math_round x = \<lfloor>x + 1/2\<rfloor>"

text \<open>
  The difference of two time values as \<open>sortTasksByCreationDate\<close> uses it, and the unary
  minus. NaN is \<open>None\<close> and is contagious. A difference beyond 53 bits is rounded, which
  keeps its sign; \<open>Array.prototype.sort\<close> reads only the sign.
\<close>

definition numberMinus :: "int option \<Rightarrow> int option \<Rightarrow> int option" where
  "numberMinus a b = (case (a, b) of (Some x, Some y) \<Rightarrow> Some (x - y) | _ \<Rightarrow> None)"

definition numberNegate :: "int option \<Rightarrow> int option" where
  "numberNegate a = map_option uminus a"

subsection \<open>Array.prototype.sort\<close>

text \<open>
  \<open>Array.prototype.sort\<close> with a comparator. A comparator result of NaN counts as
  \<open>+0\<close> (\<open>sortCompare\<close>). ECMAScript fixes the result when the comparator is a
  consistent comparison function for the elements: it never yields NaN, every element
  compares equal to itself, comparing equal is symmetric and transitive, and so are
  comparing before and comparing after. The result is then ordered by the comparator,
  and elements that compare equal keep their input order (the sort is stable since
  ECMAScript 2019); \<open>stableSort\<close> computes it by insertion. For every other comparator
  ECMAScript leaves the order to the implementation, and the result is some
  rearrangement of the elements. \<open>arraySort comparefn xs ys\<close> says that \<open>ys\<close> is a result
  that the call on \<open>xs\<close> may return. The spread \<open>[...tasks]\<close> copies the list, so the
  argument is not changed.
\<close>

definition sortCompare :: "('a \<Rightarrow> 'a \<Rightarrow> int option) \<Rightarrow> 'a \<Rightarrow> 'a \<Rightarrow> int" where
  "sortCompare comparefn x y = (case comparefn x y of None \<Rightarrow> 0 | Some v \<Rightarrow> v)"

definition consistentComparator :: "('a \<Rightarrow> 'a \<Rightarrow> int option) \<Rightarrow> 'a list \<Rightarrow> bool" where
  "consistentComparator comparefn xs \<longleftrightarrow>
     list_all (\<lambda>a. list_all (\<lambda>b. comparefn a b \<noteq> None) xs) xs \<and>
     list_all (\<lambda>a. sortCompare comparefn a a = 0) xs \<and>
     list_all (\<lambda>a. list_all (\<lambda>b.
        sortCompare comparefn a b = 0 \<longrightarrow> sortCompare comparefn b a = 0) xs) xs \<and>
     list_all (\<lambda>a. list_all (\<lambda>b. list_all (\<lambda>c.
        (sortCompare comparefn a b = 0 \<and> sortCompare comparefn b c = 0
           \<longrightarrow> sortCompare comparefn a c = 0) \<and>
        (sortCompare comparefn a b < 0 \<and> sortCompare comparefn b c < 0
           \<longrightarrow> sortCompare comparefn a c < 0) \<and>
        (sortCompare comparefn a b > 0 \<and> sortCompare comparefn b c > 0
           \<longrightarrow> sortCompare comparefn a c > 0)) xs) xs) xs"

fun insertSorted :: "('a \<Rightarrow> 'a \<Rightarrow> int option) \<Rightarrow> 'a \<Rightarrow> 'a list \<Rightarrow> 'a list" where
  "insertSorted comparefn x [] = [x]"
| "insertSorted comparefn x (y # ys) =
     (if sortCompare comparefn x y \<le> 0 then x # y # ys
      else y # insertSorted comparefn x ys)"

fun stableSort :: "('a \<Rightarrow> 'a \<Rightarrow> int option) \<Rightarrow> 'a list \<Rightarrow> 'a list" where
  "stableSort comparefn [] = []"
| "stableSort comparefn (x # xs) = insertSorted comparefn x (stableSort comparefn xs)"

definition arraySort :: "('a \<Rightarrow> 'a \<Rightarrow> int option) \<Rightarrow> 'a list \<Rightarrow> 'a list \<Rightarrow> bool" where
  "arraySort comparefn xs ys \<longleftrightarrow>
     mset ys = mset xs \<and>
     (consistentComparator comparefn xs \<longrightarrow> ys = stableSort comparefn xs)"

subsection \<open>Statistics and sorting\<close>

definition calculateStats :: "TaskEntity list \<Rightarrow> TaskStats" where
  "calculateStats tasks =
     (let total' = int (length tasks);
          completed' = int (length (filter (\<lambda>task. status task = Completed) tasks));
          pending' = total' - completed';
          completionRate' =
            (if total' > 0
             then Math_round (numberTimes (numberDivide (of_int completed') (of_int total')) 100)
             else 0)
      in \<lparr>total = total', completed = completed', pending = pending',
          completionRate = completionRate'\<rparr>)"

text \<open>
  \<open>sortTasksByCreationDate tasks descending result\<close>: the call may return \<open>result\<close>. The
  parameter \<open>descending\<close> is \<open>false\<close> when omitted.
\<close>

definition sortTasksByCreationDate :: "TaskEntity list \<Rightarrow> bool \<Rightarrow> TaskEntity list \<Rightarrow> bool" where
  "sortTasksByCreationDate tasks descending result \<longleftrightarrow>
     arraySort
       (\<lambda>a b. let comparison = numberMinus (getTime (createdAt a)) (getTime (createdAt b))
              in if descending then numberNegate comparison else comparison)
       tasks result"

section \<open>Platform functions used by the repository\<close>

subsection \<open>Date.prototype.toISOString\<close>

text \<open>
  \<open>toISOString\<close> prints a time value as \<open>YYYY-MM-DDTHH:mm:ss.sssZ\<close> in UTC, the year
  with six digits and a sign outside 0 to 9999, and throws a \<open>RangeError\<close> on an Invalid
  Date. \<open>civilFromDays\<close> turns a day number (days since 1970-01-01) into year, month
  and day of the proleptic Gregorian calendar.
\<close>

definition padDigits :: "nat \<Rightarrow> nat \<Rightarrow> jsstring" where
  "padDigits w n = replicate (w - length (digits n)) 0x0030 @ digits n"

definition civilFromDays :: "int \<Rightarrow> int \<times> int \<times> int" where
  "civilFromDays days =
     (let z = days + 719468;
          era = z div 146097;
          doe = z mod 146097;
          yoe = (doe - doe div 1460 + doe div 36524 - doe div 146096) div 365;
          doy = doe - (365 * yoe + yoe div 4 - yoe div 100);
          mp = (5 * doy + 2) div 153;
          d = doy - (153 * mp + 2) div 5 + 1;
          m = (if mp < 10 then mp + 3 else mp - 9);
          y = yoe + era * 400 + (if m \<le> 2 then 1 else 0)
      in (y, m, d))"

definition toISOString :: "Date \<Rightarrow> JSError + jsstring" where
  "toISOString date =
     (case getTime date of
        None \<Rightarrow> Inl (JSError ''RangeError'' ''Invalid time value'')
      | Some tv \<Rightarrow>
          (case civilFromDays (tv div 86400000) of
             (y, m, d) \<Rightarrow>
               let ms = tv mod 86400000;
                   year = (if 0 \<le> y \<and> y \<le> 9999 then padDigits 4 (nat y)
                           else (if y < 0 then 0x002D else 0x002B) # padDigits 6 (nat \<bar>y\<bar>))
               in Inr (year @ js ''-'' @ padDigits 2 (nat m) @ js ''-'' @ padDigits 2 (nat d)
                       @ js ''T'' @ padDigits 2 (nat (ms div 3600000))
                       @ js '':'' @ padDigits 2 (nat (ms div 60000 mod 60))
                       @ js '':'' @ padDigits 2 (nat (ms div 1000 mod 60))
                       @ js ''.'' @ padDigits 3 (nat (ms mod 1000)) @ js ''Z'')))"

subsection \<open>JSON\<close>

text \<open>
  The values that \<open>JSON.parse\<close> returns. An object is the list of its properties, each
  name once; \<open>getProperty\<close> reads one, \<open>None\<close> being \<open>undefined\<close>. Arrays and primitive
  values have none of the properties read here.
\<close>

datatype json =
    JNull
  | JBool bool
  | JNumber rat
  | JString jsstring
  | JArray "json list"
  | JObject "(jsstring \<times> json) list"

definition getProperty :: "json \<Rightarrow> string \<Rightarrow> json option" where
  "getProperty v k = (case v of JObject props \<Rightarrow> map_of props (js k) | _ \<Rightarrow> None)"

fun typeof :: "json option \<Rightarrow> string" where
  "typeof None = ''undefined''"
| "typeof (Some JNull) = ''object''"
| "typeof (Some (JBool b)) = ''boolean''"
| "typeof (Some (JNumber n)) = ''number''"
| "typeof (Some (JString s)) = ''string''"
| "typeof (Some (JArray xs)) = ''object''"
| "typeof (Some (JObject props)) = ''object''"

text \<open>
  \<open>JSON.stringify\<close> on an array of objects whose property values are strings, which is
  what \<open>save\<close> passes. A string is quoted; the quote (U+0022), the backslash (U+005C)
  and the control characters are escaped, and so is a surrogate code unit that is not
  part of a pair.
\<close>

definition hexDigit :: "nat \<Rightarrow> code_unit" where
  "hexDigit n = (if n < 10 then 0x0030 + of_nat n else 0x0061 + of_nat (n - 10))"

definition unicodeEscape :: "code_unit \<Rightarrow> jsstring" where
  "unicodeEscape c =
     [0x005C, 0x0075, hexDigit (unat c div 4096), hexDigit (unat c div 256 mod 16),
                    hexDigit (unat c div 16 mod 16), hexDigit (unat c mod 16)]"

definition isLeadingSurrogate :: "code_unit \<Rightarrow> bool" where
  "isLeadingSurrogate c \<longleftrightarrow> 0xD800 \<le> c \<and> c \<le> 0xDBFF"

definition isTrailingSurrogate :: "code_unit \<Rightarrow> bool" where
  "isTrailingSurrogate c \<longleftrightarrow> 0xDC00 \<le> c \<and> c \<le> 0xDFFF"

definition quoteCodeUnit :: "code_unit \<Rightarrow> jsstring" where
  "quoteCodeUnit c =
     (if c = 0x0008 then [0x005C, 0x0062]
      else if c = 0x0009 then [0x005C, 0x0074]
      else if c = 0x000A then [0x005C, 0x006E]
      else if c = 0x000C then [0x005C, 0x0066]
      else if c = 0x000D then [0x005C, 0x0072]
      else if c = 0x0022 then [0x005C, 0x0022]
      else if c = 0x005C then [0x005C, 0x005C]
      else if c < 0x0020 \<or> isLeadingSurrogate c \<or> isTrailingSurrogate c then unicodeEscape c
      else [c])"

fun quoteCodeUnits :: "jsstring \<Rightarrow> jsstring" where
  "quoteCodeUnits [] = []"
| "quoteCodeUnits [c] = quoteCodeUnit c"
| "quoteCodeUnits (c # d # cs) =
     (if isLeadingSurrogate c \<and> isTrailingSurrogate d then c # d # quoteCodeUnits cs
      else quoteCodeUnit c @ quoteCodeUnits (d # cs))"

definition quoteJSONString :: "jsstring \<Rightarrow> jsstring" where
  "quoteJSONString s = [0x0022] @ quoteCodeUnits s @ [0x0022]"

fun joinWithComma :: "jsstring list \<Rightarrow> jsstring" where
  "joinWithComma [] = []"
| "joinWithComma [x] = x"
| "joinWithComma (x # y # xs) = x @ 0x002C # joinWithComma (y # xs)"

definition stringifyObject :: "(jsstring \<times> jsstring) list \<Rightarrow> jsstring" where
  "stringifyObject props =
     js ''{'' @ joinWithComma (map (\<lambda>(k, v). quoteJSONString k @ js '':'' @ quoteJSONString v) props)
     @ js ''}''"

definition JSON_stringify :: "(jsstring \<times> jsstring) list list \<Rightarrow> jsstring" where
  "JSON_stringify objects = js ''['' @ joinWithComma (map stringifyObject objects) @ js '']''"

subsection \<open>localStorage\<close>

text \<open>
  The storage backend: the stored items, the number of code units it still accepts
  for a value, and a count of the calls of \<open>setItem\<close>, successful or not. \<open>setItem\<close>
  throws a \<open>QuotaExceededError\<close> when the value does not fit.
\<close>

record Storage =
  items :: "jsstring \<rightharpoonup> jsstring"
  freeSpace :: nat
  setItemCalls :: nat

definition getItem :: "Storage \<Rightarrow> jsstring \<Rightarrow> jsstring option" where
  "getItem st key = items st key"

definition setItem :: "Storage \<Rightarrow> jsstring \<Rightarrow> jsstring \<Rightarrow> (JSError + unit) \<times> Storage" where
  "setItem st key v =
     (let st' = st\<lparr>setItemCalls := setItemCalls st + 1\<rparr> in
      if length v > freeSpace st
      then (Inl (JSError ''QuotaExceededError'' ''The quota has been exceeded.''), st')
      else (Inr (), st'\<lparr>items := (items st)(key \<mapsto> v)\<rparr>))"

section \<open>LocalStorageTaskRepository (repositories/TaskRepository.ts)\<close>

text \<open>
  The repository object has no fields. A method body reads it as \<open>this\<close>; a method that
  is passed as a callback to \<open>Array.prototype.map\<close> is called with \<open>this\<close> undefined,
  which is \<open>None\<close>.
\<close>

datatype LocalStorageTaskRepository = LocalStorageTaskRepository

definition STORAGE_KEY :: jsstring where
  "STORAGE_KEY = js ''todoapp_tasks_v1''"

definition MAX_STORAGE_SIZE :: nat where
  "MAX_STORAGE_SIZE = 5 * 1024 * 1024"

definition statusString :: "TaskStatus \<Rightarrow> jsstring" where
  "statusString s = (case s of Pending \<Rightarrow> js ''pending'' | Completed \<Rightarrow> js ''completed'')"

text \<open>\<open>serializeTask\<close> does not read \<open>this\<close>.\<close>

definition serializeTask ::
  "LocalStorageTaskRepository option \<Rightarrow> TaskEntity \<Rightarrow> JSError + (jsstring \<times> jsstring) list" where
  "serializeTask this task =
     (case toISOString (createdAt task) of
        Inl e \<Rightarrow> Inl e
      | Inr created \<Rightarrow>
          (case toISOString (updatedAt task) of
             Inl e \<Rightarrow> Inl e
           | Inr updated \<Rightarrow>
               Inr [(js ''id'', taskId task), (js ''title'', title task),
                    (js ''status'', statusString (status task)),
                    (js ''createdAt'', created), (js ''updatedAt'', updated)]))"

text \<open>\<open>tasks.map(this.serializeTask)\<close>: the first exception ends the loop.\<close>

fun serializeTasks :: "TaskEntity list \<Rightarrow> JSError + (jsstring \<times> jsstring) list list" where
  "serializeTasks [] = Inr []"
| "serializeTasks (task # tasks) =
     (case serializeTask None task of
        Inl e \<Rightarrow> Inl e
      | Inr obj \<Rightarrow> (case serializeTasks tasks of Inl e \<Rightarrow> Inl e | Inr objs \<Rightarrow> Inr (obj # objs)))"

text \<open>
  \<open>save\<close>: the inner case is the \<open>try\<close> block, the outer one the \<open>catch\<close> clause, which
  rethrows every error under a new message. Every error of the model is an instance of
  \<open>Error\<close>.
\<close>

definition save :: "TaskEntity list \<Rightarrow> Storage \<Rightarrow> (JSError + unit) \<times> Storage" where
  "save tasks st =
     (case (case serializeTasks tasks of
              Inl e \<Rightarrow> (Inl e, st)
            | Inr objects \<Rightarrow>
                let serialized = JSON_stringify objects in
                if length serialized > MAX_STORAGE_SIZE
                then (Inl (Error ''Data exceeds maximum storage size''), st)
                else setItem st STORAGE_KEY serialized) of
        (Inl error, st') \<Rightarrow>
          if errorName error = ''QuotaExceededError''
          then (Inl (Error ''Storage quota exceeded. Please clear some tasks.''), st')
          else (Inl (Error (''Failed to save tasks: '' @ errorMessage error)), st')
      | (Inr u, st') \<Rightarrow> (Inr u, st'))"

text \<open>
  \<open>isValidTaskData\<close>. The conjunction of the source stops at the first false conjunct,
  so no property of \<open>null\<close> is read.
\<close>

definition isValidTaskData :: "json \<Rightarrow> bool" where
  "isValidTaskData data \<longleftrightarrow>
     typeof (Some data) = ''object'' \<and>
     data \<noteq> JNull \<and>
     typeof (getProperty data ''id'') = ''string'' \<and>
     typeof (getProperty data ''title'') = ''string'' \<and>
     (getProperty data ''status'' = Some (JString (js ''pending'')) \<or>
      getProperty data ''status'' = Some (JString (js ''completed''))) \<and>
     typeof (getProperty data ''createdAt'') = ''string'' \<and>
     typeof (getProperty data ''updatedAt'') = ''string''"

text \<open>
  The values of the properties that \<open>isValidTaskData\<close> has checked, at the types of
  \<open>TaskEntity\<close>.
\<close>

definition stringValue :: "json option \<Rightarrow> jsstring" where
  "stringValue v = (case v of Some (JString s) \<Rightarrow> s | _ \<Rightarrow> [])"

definition statusValue :: "json option \<Rightarrow> TaskStatus" where
  "statusValue v = (if v = Some (JString (js ''completed'')) then Completed else Pending)"

text \<open>
  \<open>deserializeTask\<close>. \<open>Date_parse\<close> is the platform's \<open>Date.parse\<close>, which gives the time
  value of \<open>new Date(string)\<close>, NaN for a string it does not recognise. The inner case is
  the \<open>try\<close> block: reading \<open>this.isValidTaskData\<close> when \<open>this\<close> is undefined throws a
  \<open>TypeError\<close>. The outer case is \<open>catch { return null }\<close>; \<open>None\<close> is \<open>null\<close>.
\<close>

definition deserializeTask ::
  "LocalStorageTaskRepository option \<Rightarrow> (jsstring \<Rightarrow> int option) \<Rightarrow> json \<Rightarrow> TaskEntity option" where
  "deserializeTask this Date_parse data =
     (case (case this of
              None \<Rightarrow> Inl (JSError ''TypeError'' ''Cannot read properties of undefined'')
            | Some repository \<Rightarrow>
                if \<not> isValidTaskData data then Inr None
                else Inr (Some
                  \<lparr>taskId = stringValue (getProperty data ''id''),
                   title = stringValue (getProperty data ''title''),
                   status = statusValue (getProperty data ''status''),
                   createdAt = Date (Date_parse (stringValue (getProperty data ''createdAt''))),
                   updatedAt = Date (Date_parse (stringValue (getProperty data ''updatedAt'')))\<rparr>)) of
        Inl e \<Rightarrow> None
      | Inr result \<Rightarrow> result)"

text \<open>
  \<open>findAll\<close>. \<open>JSON_parse\<close> is the platform's \<open>JSON.parse\<close>, which throws a \<open>SyntaxError\<close>
  on a text that is not JSON. The inner case is the \<open>try\<close> block, the outer one the
  \<open>catch\<close> clause. \<open>parsed.map(this.deserializeTask)\<close> hands the method to \<open>map\<close> without
  its receiver, so every call has \<open>this\<close> undefined; \<open>filter(Boolean)\<close> keeps the results
  that are not \<open>null\<close>.
\<close>

definition findAll ::
  "(jsstring \<Rightarrow> JSError + json) \<Rightarrow> (jsstring \<Rightarrow> int option) \<Rightarrow> Storage \<Rightarrow> TaskEntity list" where
  "findAll JSON_parse Date_parse st =
     (case (case getItem st STORAGE_KEY of
              None \<Rightarrow> Inr []
            | Some data \<Rightarrow>
                if data = [] then Inr []
                else (case JSON_parse data of
                        Inl e \<Rightarrow> Inl e
                      | Inr parsed \<Rightarrow>
                          (case parsed of
                             JArray elements \<Rightarrow>
                               Inr (map the (filter (\<lambda>r. r \<noteq> None)
                                      (map (deserializeTask None Date_parse) elements)))
                           | _ \<Rightarrow> Inr []))) of
        Inl error \<Rightarrow> []
      | Inr tasks \<Rightarrow> tasks)"

section \<open>Specification-level definitions\<close>

text \<open>
  The normalisation of a title in the words of the specification: the title is cut into
  its maximal runs of non-white-space code units, and these are joined by single spaces.
  Leading and trailing white space disappears and every inner run of white space becomes
  one space.
\<close>

function splitWords :: "jsstring \<Rightarrow> jsstring list" where
  "splitWords [] = []"
| "splitWords (c # cs) =
     (if isWhiteSpace c then splitWords cs
      else (c # takeWhile (\<lambda>x. \<not> isWhiteSpace x) cs)
             # splitWords (dropWhile (\<lambda>x. \<not> isWhiteSpace x) cs))"
  by pat_completeness auto
termination
  by (relation "measure length") (auto simp: length_dropWhile_le less_Suc_eq_le)

fun joinWithSpace :: "jsstring list \<Rightarrow> jsstring" where
  "joinWithSpace [] = []"
| "joinWithSpace [w] = w"
| "joinWithSpace (w # v # ws) = w @ 0x0020 # joinWithSpace (v # ws)"

definition normalizeTitle_spec :: "jsstring \<Rightarrow> jsstring" where
  "normalizeTitle_spec t = joinWithSpace (splitWords t)"


text \<open>The time value of the creation date of a task with a valid date.\<close>

definition timeValue :: "TaskEntity \<Rightarrow> int" where
  "timeValue task = the (getTime (createdAt task))"

section \<open>Auxiliary definitions\<close>

text \<open>The comparator of \<open>sortTasksByCreationDate\<close> and the rate of \<open>calculateStats\<close>.\<close>

definition creationCompare :: "bool \<Rightarrow> TaskEntity \<Rightarrow> TaskEntity \<Rightarrow> int option" where
  "creationCompare descending a b =
     (let comparison = numberMinus (getTime (createdAt a)) (getTime (createdAt b))
      in if descending then numberNegate comparison else comparison)"

definition percentage :: "int \<Rightarrow> int \<Rightarrow> int" where
  "percentage c t = Math_round (numberTimes (numberDivide (of_int c) (of_int t)) 100)"

section \<open>Example data\<close>

definition exampleTask :: TaskEntity where
  "exampleTask =
     \<lparr>taskId = js ''task_1000_k3j9x2m1q'', title = js ''x'', status = Pending,
      createdAt = Date (Some 1000), updatedAt = Date (Some 1000)\<rparr>"

text \<open>Three tasks, one of them completed; the last two were created in the same tick.\<close>

definition exampleTasks :: "TaskEntity list" where
  "exampleTasks =
     [\<lparr>taskId = js ''task_2000_a'', title = js ''late'', status = Pending,
       createdAt = Date (Some 2000), updatedAt = Date (Some 2000)\<rparr>,
      \<lparr>taskId = js ''task_1000_b'', title = js ''first'', status = Pending,
       createdAt = Date (Some 1000), updatedAt = Date (Some 1000)\<rparr>,
      \<lparr>taskId = js ''task_1000_c'', title = js ''second'', status = Completed,
       createdAt = Date (Some 1000), updatedAt = Date (Some 3000)\<rparr>]"

text \<open>Three tasks, the second with an Invalid Date as its creation date.\<close>

definition invalidDateTasks :: "TaskEntity list" where
  "invalidDateTasks =
     [\<lparr>taskId = js ''task_2000_a'', title = js ''late'', status = Pending,
       createdAt = Date (Some 2000), updatedAt = Date (Some 2000)\<rparr>,
      \<lparr>taskId = js ''task_x'', title = js ''undated'', status = Pending,
       createdAt = Date None, updatedAt = Date None\<rparr>,
      \<lparr>taskId = js ''task_1000_b'', title = js ''first'', status = Pending,
       createdAt = Date (Some 1000), updatedAt = Date (Some 1000)\<rparr>]"

text \<open>The objects that \<open>save\<close> makes of the three tasks before it prints them.\<close>

definition exampleObjects :: "(jsstring \<times> jsstring) list list" where
  "exampleObjects =
     [[(js ''id'', js ''task_2000_a''), (js ''title'', js ''late''),
       (js ''status'', js ''pending''),
       (js ''createdAt'', js ''1970-01-01T00:00:02.000Z''),
       (js ''updatedAt'', js ''1970-01-01T00:00:02.000Z'')],
      [(js ''id'', js ''task_1000_b''), (js ''title'', js ''first''),
       (js ''status'', js ''pending''),
       (js ''createdAt'', js ''1970-01-01T00:00:01.000Z''),
       (js ''updatedAt'', js ''1970-01-01T00:00:01.000Z'')],
      [(js ''id'', js ''task_1000_c''), (js ''title'', js ''second''),
       (js ''status'', js ''completed''),
       (js ''createdAt'', js ''1970-01-01T00:00:01.000Z''),
       (js ''updatedAt'', js ''1970-01-01T00:00:03.000Z'')]]"


text \<open>A task whose title alone is longer than the storage ceiling.\<close>

definition hugeTask :: TaskEntity where
  "hugeTask = exampleTask\<lparr>title := replicate 5242880 0x0061\<rparr>"

definition emptyStorage :: Storage where
  "emptyStorage = \<lparr>items = Map.empty, freeSpace = 10000000, setItemCalls = 0\<rparr>"

definition usedStorage :: Storage where
  "usedStorage = \<lparr>items = [STORAGE_KEY \<mapsto> js ''[]''], freeSpace = 10000000, setItemCalls = 1\<rparr>"

text \<open>
  The properties of a stored record with every property, and of one without \<open>status\<close>;
  \<open>objectOf\<close> is the object that \<open>JSON.parse\<close> returns for what \<open>JSON.stringify\<close> wrote
  from such properties.
\<close>

definition validRecordProperties :: "(jsstring \<times> jsstring) list" where
  "validRecordProperties =
     [(js ''id'', js ''task_1000_b''), (js ''title'', js ''first''),
      (js ''status'', js ''pending''),
      (js ''createdAt'', js ''1970-01-01T00:00:01.000Z''),
      (js ''updatedAt'', js ''1970-01-01T00:00:01.000Z'')]"

definition propertiesMissingStatus :: "(jsstring \<times> jsstring) list" where
  "propertiesMissingStatus =
     [(js ''id'', js ''task_2000_a''), (js ''title'', js ''late''),
      (js ''createdAt'', js ''1970-01-01T00:00:02.000Z''),
      (js ''updatedAt'', js ''1970-01-01T00:00:02.000Z'')]"

definition objectOf :: "(jsstring \<times> jsstring) list \<Rightarrow> json" where
  "objectOf props = JObject (map (\<lambda>(k, v). (k, JString v)) props)"

definition validRecord :: json where
  "validRecord = objectOf validRecordProperties"

definition recordMissingStatus :: json where
  "recordMissingStatus = objectOf propertiesMissingStatus"

text \<open>
  A storage that holds the two records, and a parser that reads its text as
  \<open>JSON.parse\<close> does and rejects every other text.
\<close>

definition storageWithRecords :: Storage where
  "storageWithRecords =
     \<lparr>items = [STORAGE_KEY \<mapsto> JSON_stringify [validRecordProperties, propertiesMissingStatus]],
      freeSpace = 10000000, setItemCalls = 1\<rparr>"

definition parseStoredRecords :: "jsstring \<Rightarrow> JSError + json" where
  "parseStoredRecords text =
     (if text = JSON_stringify [validRecordProperties, propertiesMissingStatus]
      then Inr (JArray [validRecord, recordMissingStatus])
      else Inl (JSError ''SyntaxError'' ''Unexpected token''))"

section \<open>Title normalisation\<close>

text \<open>
  \<open>sanitizeTitle\<close> computes the normalisation that the specification describes: the
  words of the title, joined by single spaces.
\<close>

lemma splitWords_dropWhile: "splitWords (dropWhile isWhiteSpace s) = splitWords s"
  by (induction s) auto

lemma splitWords_snoc_ws: "isWhiteSpace w \<Longrightarrow> splitWords (s @ [w]) = splitWords s"
proof (induction s rule: splitWords.induct)
  case 1
  then show ?case by simp
next
  case (2 c cs)
  show ?case
  proof (cases "isWhiteSpace c")
    case True
    with 2 show ?thesis by simp
  next
    case False
    show ?thesis
    proof (cases "\<forall>x\<in>set cs. \<not> isWhiteSpace x")
      case True
      then have a: "takeWhile (\<lambda>x. \<not> isWhiteSpace x) (cs @ [w]) = cs"
        and b: "dropWhile (\<lambda>x. \<not> isWhiteSpace x) (cs @ [w]) = [w]"
        and c: "takeWhile (\<lambda>x. \<not> isWhiteSpace x) cs = cs"
        and d: "dropWhile (\<lambda>x. \<not> isWhiteSpace x) cs = []"
        using \<open>isWhiteSpace w\<close> by simp_all
      have "splitWords ((c # cs) @ [w]) = [c # cs]"
        using False \<open>isWhiteSpace w\<close> by (simp add: a b)
      moreover have "splitWords (c # cs) = [c # cs]"
        using False by (simp add: c d)
      ultimately show ?thesis by simp
    next
      case nall: False
      then obtain x where x: "x \<in> set cs" "isWhiteSpace x" by blast
      then have "takeWhile (\<lambda>x. \<not> isWhiteSpace x) (cs @ [w]) = takeWhile (\<lambda>x. \<not> isWhiteSpace x) cs"
        and "dropWhile (\<lambda>x. \<not> isWhiteSpace x) (cs @ [w]) = dropWhile (\<lambda>x. \<not> isWhiteSpace x) cs @ [w]"
        by (auto simp: takeWhile_append1 dropWhile_append1)
      with False 2 show ?thesis by simp
    qed
  qed
qed

lemma splitWords_strip_right:
  "splitWords (rev (dropWhile isWhiteSpace (rev s))) = splitWords s"
  by (induction s rule: rev_induct) (auto simp: splitWords_snoc_ws)

lemma splitWords_trim: "splitWords (trim s) = splitWords s"
  by (simp add: trim_def splitWords_strip_right splitWords_dropWhile)

lemma splitWords_eq_Nil: "splitWords s = [] \<longleftrightarrow> (\<forall>x\<in>set s. isWhiteSpace x)"
  by (induction s rule: splitWords.induct) auto

lemma replace_nonws_prefix:
  "\<forall>x\<in>set u. \<not> isWhiteSpace x \<Longrightarrow> replaceWhiteSpaceRuns (u @ v) = u @ replaceWhiteSpaceRuns v"
  by (induction u) auto

lemma replace_eq_join:
  "s = [] \<or> \<not> isWhiteSpace (last s) \<Longrightarrow>
   replaceWhiteSpaceRuns s =
     (if s \<noteq> [] \<and> isWhiteSpace (hd s) then 0x0020 # joinWithSpace (splitWords s)
      else joinWithSpace (splitWords s))"
proof (induction s rule: length_induct)
  case (1 s)
  show ?case
  proof (cases s)
    case Nil
    then show ?thesis by simp
  next
    case (Cons c cs)
    show ?thesis
    proof (cases "isWhiteSpace c")
      case True
      define r where "r = dropWhile isWhiteSpace cs"
      from 1(2) Cons True have cs: "cs \<noteq> []" "\<not> isWhiteSpace (last cs)"
        by (auto split: if_splits)
      then have "\<exists>x\<in>set cs. \<not> isWhiteSpace x" using last_in_set by blast
      then have rne: "r \<noteq> []" by (auto simp: r_def)
      then have hdr: "\<not> isWhiteSpace (hd r)" unfolding r_def by (metis hd_dropWhile)
      have "cs = takeWhile isWhiteSpace cs @ r" by (simp add: r_def)
      then have "last cs = last r" using rne by (metis last_appendR)
      with cs have lastr: "\<not> isWhiteSpace (last r)" by simp
      have "length r < length s" using Cons by (simp add: r_def length_dropWhile_le less_Suc_eq_le)
      with 1(1) lastr hdr have "replaceWhiteSpaceRuns r = joinWithSpace (splitWords r)" by auto
      moreover have "splitWords s = splitWords r"
        using Cons True by (simp add: r_def splitWords_dropWhile)
      ultimately show ?thesis using Cons True by (simp add: r_def)
    next
      case False
      define u where "u = c # takeWhile (\<lambda>x. \<not> isWhiteSpace x) cs"
      define v where "v = dropWhile (\<lambda>x. \<not> isWhiteSpace x) cs"
      have s: "s = u @ v" by (simp add: Cons u_def v_def)
      have u: "\<forall>x\<in>set u. \<not> isWhiteSpace x" using False by (auto simp: u_def dest: set_takeWhileD)
      have sw: "splitWords s = u # splitWords v" using Cons False by (simp add: u_def v_def)
      have rp: "replaceWhiteSpaceRuns s = u @ replaceWhiteSpaceRuns v"
        unfolding s using u by (rule replace_nonws_prefix)
      show ?thesis
      proof (cases "v = []")
        case True
        with sw rp Cons False show ?thesis by simp
      next
        case vne: False
        then have hdv: "isWhiteSpace (hd v)" unfolding v_def by (metis hd_dropWhile)
        have "last s = last v" using s vne by simp
        with 1(2) Cons have lastv: "\<not> isWhiteSpace (last v)" by auto
        have "length v < length s" using Cons by (simp add: v_def length_dropWhile_le less_Suc_eq_le)
        with 1(1) lastv hdv vne have rv: "replaceWhiteSpaceRuns v = 0x0020 # joinWithSpace (splitWords v)"
          by auto
        have "splitWords v \<noteq> []" using lastv vne last_in_set by (auto simp: splitWords_eq_Nil)
        then obtain w ws where "splitWords v = w # ws" by (cases "splitWords v") auto
        with sw rp rv Cons False show ?thesis by simp
      qed
    qed
  qed
qed

lemma trim_ends:
  "trim s = [] \<or> (\<not> isWhiteSpace (hd (trim s)) \<and> \<not> isWhiteSpace (last (trim s)))"
proof (cases "trim s = []")
  case True then show ?thesis by simp
next
  case False
  define x where "x = dropWhile isWhiteSpace s"
  define y where "y = dropWhile isWhiteSpace (rev x)"
  have t: "trim s = rev y" by (simp add: trim_def x_def y_def)
  with False have yne: "y \<noteq> []" by simp
  then have "\<not> isWhiteSpace (hd y)" unfolding y_def by (metis hd_dropWhile)
  then have l: "\<not> isWhiteSpace (last (trim s))" using t yne by (simp add: last_rev)
  have "rev x = takeWhile isWhiteSpace (rev x) @ y" by (simp add: y_def)
  then have "x = rev y @ rev (takeWhile isWhiteSpace (rev x))" by (metis rev_append rev_rev_ident)
  then have "hd x = hd (rev y)" using yne by (metis hd_append2 rev_is_Nil_conv)
  moreover have "x \<noteq> []" using yne y_def by auto
  then have "\<not> isWhiteSpace (hd x)" unfolding x_def by (metis hd_dropWhile)
  ultimately show ?thesis using t l by simp
qed

lemma sanitizeTitle_refines: "sanitizeTitle t = normalizeTitle_spec t"
proof -
  have "replaceWhiteSpaceRuns (trim t) = joinWithSpace (splitWords (trim t))"
    using trim_ends[of t] replace_eq_join[of "trim t"] by auto
  then show ?thesis
    by (simp add: sanitizeTitle_def normalizeTitle_spec_def splitWords_trim)
qed

lemma sanitizeTitle_no_white_space:
  assumes "\<forall>x\<in>set s. \<not> isWhiteSpace x"
  shows "sanitizeTitle s = s"
proof (cases s)
  case Nil
  then show ?thesis by (simp add: sanitizeTitle_def trim_def)
next
  case (Cons c cs)
  with assms have a: "dropWhile (\<lambda>x. \<not> isWhiteSpace x) cs = []"
    and b: "takeWhile (\<lambda>x. \<not> isWhiteSpace x) cs = cs" by simp_all
  from Cons assms have "splitWords s = [s]" by (simp add: a b)
  then show ?thesis by (simp add: sanitizeTitle_refines normalizeTitle_spec_def)
qed

lemma letter_a_no_white_space: "\<not> isWhiteSpace 0x0061"
  by (simp add: isWhiteSpace_def)

lemma normalizeTitle_spec_letters:
  "normalizeTitle_spec (replicate n 0x0061) = replicate n 0x0061"
  using sanitizeTitle_no_white_space[of "replicate n 0x0061"] letter_a_no_white_space
  by (simp add: sanitizeTitle_refines)

lemma normalizeTitle_spec_example: "normalizeTitle_spec (js ''  a   b  '') = js ''a b''"
  by (simp add: sanitizeTitle_refines[symmetric] sanitizeTitle_def trim_def js_def
      isWhiteSpace_def)

section \<open>Creating a task\<close>

text \<open>
  Claim C4. For every input title, \<open>createTask\<close> returns a task whose title is the
  input with leading and trailing white space removed and every inner run of white space
  collapsed to one space, and it fails, with the error of the title length, exactly when
  the length of the normalised title is outside 1 to 255; nothing else makes it fail.
\<close>

theorem createTask_normalizes_and_validates:
  "createTask now dateNow randomPart \<lparr>creationTitle = t\<rparr> =
     (if 1 \<le> length (normalizeTitle_spec t) \<and> length (normalizeTitle_spec t) \<le> 255
      then Inr \<lparr>taskId = generateId dateNow randomPart, title = normalizeTitle_spec t,
                status = Pending, createdAt = Date (Some now), updatedAt = Date (Some now)\<rparr>
      else Inl (Error ''Task title must be between 1 and 255 characters''))"
  by (cases "normalizeTitle_spec t")
     (auto simp: createTask_def validateTitle_def sanitizeTitle_refines Let_def)

text \<open>
  The examples of claim C4: \<open>"  a   b  "\<close> gives \<open>"a b"\<close>, the empty title and a title
  of 256 letters fail, a title of 255 letters succeeds.
\<close>

theorem createTask_normalizes_and_validates_witness:
  "createTask 1000 1000 (js ''k3j9x2m1q'') \<lparr>creationTitle = js ''  a   b  ''\<rparr> =
     Inr \<lparr>taskId = generateId 1000 (js ''k3j9x2m1q''), title = js ''a b'', status = Pending,
          createdAt = Date (Some 1000), updatedAt = Date (Some 1000)\<rparr> \<and>
   createTask 1000 1000 (js ''k3j9x2m1q'') \<lparr>creationTitle = []\<rparr> =
     Inl (Error ''Task title must be between 1 and 255 characters'') \<and>
   createTask 1000 1000 (js ''k3j9x2m1q'') \<lparr>creationTitle = replicate 256 0x0061\<rparr> =
     Inl (Error ''Task title must be between 1 and 255 characters'') \<and>
   createTask 1000 1000 (js ''k3j9x2m1q'') \<lparr>creationTitle = replicate 255 0x0061\<rparr> =
     Inr \<lparr>taskId = generateId 1000 (js ''k3j9x2m1q''), title = replicate 255 0x0061,
          status = Pending, createdAt = Date (Some 1000), updatedAt = Date (Some 1000)\<rparr>"
proof -
  have e: "normalizeTitle_spec [] = []" by (simp add: normalizeTitle_spec_def)
  have l: "length (js ''a b'') = 3" by (simp add: js_def)
  show ?thesis
    using createTask_normalizes_and_validates[of 1000 1000 "js ''k3j9x2m1q''" "js ''  a   b  ''"]
      createTask_normalizes_and_validates[of 1000 1000 "js ''k3j9x2m1q''" "[]"]
      createTask_normalizes_and_validates[of 1000 1000 "js ''k3j9x2m1q''" "replicate 256 0x0061"]
      createTask_normalizes_and_validates[of 1000 1000 "js ''k3j9x2m1q''" "replicate 255 0x0061"]
    by (simp add: normalizeTitle_spec_letters normalizeTitle_spec_example e l)
qed

section \<open>Updating a task\<close>

lemma updateTask_empty_patch:
  "updateTask now task \<lparr>updateTitle = None, updateStatus = None\<rparr> = Inr task"
  by (simp add: updateTask_def)

lemma updateTask_same_status:
  "updateTask now task \<lparr>updateTitle = None, updateStatus = Some (status task)\<rparr> = Inr task"
  by (simp add: updateTask_def)

lemma updateTask_changed:
  assumes "updateTask now task updates = Inr task'"
    and "title task' \<noteq> title task \<or> status task' \<noteq> status task"
  shows "updatedAt task' = Date (Some now) \<and> taskId task' = taskId task
         \<and> createdAt task' = createdAt task"
  using assms by (auto simp: updateTask_def Let_def split: option.splits if_splits)

lemma updateTask_title_patch:
  assumes "validateTitle (sanitizeTitle t)"
  shows "updateTask now task \<lparr>updateTitle = Some t, updateStatus = None\<rparr> =
           Inr (task\<lparr>title := sanitizeTitle t, updatedAt := Date (Some now)\<rparr>)"
  using assms by (simp add: updateTask_def Let_def)

lemma sanitizeTitle_x: "sanitizeTitle (js ''x'') = js ''x''"
  by (simp add: sanitizeTitle_def trim_def js_def isWhiteSpace_def)

lemma validateTitle_x: "validateTitle (sanitizeTitle (js ''x''))"
  unfolding sanitizeTitle_x by (simp add: validateTitle_def js_def)

text \<open>
  Claim C1. An update whose patch is empty or equal to the current values leaves
  \<open>updatedAt\<close> as it is, and an update that changes a field sets it to the current time
  and keeps the identifier. The empty patch, the equal status and the changed field
  behave so (\<open>updateTask_empty_patch\<close>, \<open>updateTask_same_status\<close>, \<open>updateTask_changed\<close>).
  A title patch does not: \<open>updateTask\<close> sets \<open>hasChanges\<close> for every title that passes
  the validation, without comparing it with the current title as the status branch
  does. Here the task has the title \<open>"x"\<close> and was updated at 1000; the patch carries the
  title \<open>"x"\<close>, the clock shows 2000, and the result was updated at 2000.
\<close>

theorem updateTask_same_title_bumps_updatedAt:
  "sanitizeTitle (js ''x'') = title exampleTask \<and>
   updatedAt exampleTask = Date (Some 1000) \<and>
   updateTask 2000 exampleTask \<lparr>updateTitle = Some (js ''x''), updateStatus = None\<rparr> =
     Inr (exampleTask\<lparr>updatedAt := Date (Some 2000)\<rparr>)"
proof -
  from updateTask_title_patch[OF validateTitle_x, of 2000 exampleTask] show ?thesis
    by (simp add: sanitizeTitle_x exampleTask_def)
qed

section \<open>The order of the two timestamps\<close>

lemma createTask_timestamps:
  assumes "createTask now dateNow randomPart data = Inr task"
  shows "createdAt task = Date (Some now) \<and> updatedAt task = Date (Some now)"
  using assms by (auto simp: createTask_def Let_def split: if_splits)

lemma updateTask_keeps_order:
  assumes "updateTask now task updates = Inr task'"
    and "getTime (createdAt task) = Some c" "getTime (updatedAt task) = Some u"
    and "c \<le> u" "u \<le> now"
  shows "\<exists>u'. getTime (createdAt task') = Some c \<and> getTime (updatedAt task') = Some u' \<and> c \<le> u'"
  using assms by (auto simp: updateTask_def Let_def split: option.splits if_splits)

lemma toggleTaskStatus_keeps_order:
  assumes "toggleTaskStatus now task = Inr task'"
    and "getTime (createdAt task) = Some c" "getTime (updatedAt task) = Some u"
    and "c \<le> u" "u \<le> now"
  shows "\<exists>u'. getTime (createdAt task') = Some c \<and> getTime (updatedAt task') = Some u' \<and> c \<le> u'"
  using assms unfolding toggleTaskStatus_def by (rule updateTask_keeps_order)

lemma generateId_example: "generateId 1000 (js ''k3j9x2m1q'') = js ''task_1000_k3j9x2m1q''"
  by (simp add: generateId_def numberToString_def digits.simps js_def)

text \<open>
  Claim C9. Every task of the service has \<open>updatedAt\<close> at or after \<open>createdAt\<close>:
  \<open>createTask\<close> sets them equal and, while the clock does not run backwards, \<open>updateTask\<close>
  and \<open>toggleTaskStatus\<close> keep the order (\<open>createTask_timestamps\<close>,
  \<open>updateTask_keeps_order\<close>, \<open>toggleTaskStatus_keeps_order\<close>). The equality does not
  last until the first update that changes the title or the status: the task created at 1000
  with the title \<open>"x"\<close> and updated at 2000 with a patch of the same title keeps its
  title and status and has \<open>updatedAt\<close> 2000, after \<open>createdAt\<close>. The cause is the one of
  claim C1.
\<close>

theorem createTask_then_same_title_update:
  "createTask 1000 1000 (js ''k3j9x2m1q'') \<lparr>creationTitle = js ''x''\<rparr> = Inr exampleTask \<and>
   createdAt exampleTask = updatedAt exampleTask \<and>
   (case updateTask 2000 exampleTask
           \<lparr>updateTitle = Some (title exampleTask), updateStatus = None\<rparr> of
      Inl e \<Rightarrow> False
    | Inr task' \<Rightarrow>
        title task' = title exampleTask \<and> status task' = status exampleTask \<and>
        createdAt task' = Date (Some 1000) \<and> updatedAt task' = Date (Some 2000))"
proof -
  note v = validateTitle_x
  then have "createTask 1000 1000 (js ''k3j9x2m1q'') \<lparr>creationTitle = js ''x''\<rparr> = Inr exampleTask"
    by (simp add: createTask_def Let_def sanitizeTitle_x generateId_example exampleTask_def)
  moreover have "title exampleTask = js ''x''" by (simp add: exampleTask_def)
  ultimately show ?thesis
    using updateTask_title_patch[OF v, of 2000 exampleTask]
    by (simp add: sanitizeTitle_x exampleTask_def)
qed

section \<open>Filtering\<close>

text \<open>
  Claim C6. The filter \<open>all\<close> returns the tasks as they are; the filters \<open>active\<close>
  (status pending) and \<open>completed\<close> (status completed) split the list: together they
  hold every task as often as the list does, no task is in both, and each result is a
  subsequence of the list, so the input order is kept. The functions return new lists
  and change no argument.
\<close>

theorem filterTasks_partition:
  "filterTasks tasks FilterAll = tasks \<and>
   filterTasks tasks FilterActive = filter (\<lambda>t. status t = Pending) tasks \<and>
   filterTasks tasks FilterCompleted = filter (\<lambda>t. status t = Completed) tasks \<and>
   mset (filterTasks tasks FilterActive) + mset (filterTasks tasks FilterCompleted) = mset tasks \<and>
   set (filterTasks tasks FilterActive) \<inter> set (filterTasks tasks FilterCompleted) = {} \<and>
   subseq (filterTasks tasks FilterActive) tasks \<and>
   subseq (filterTasks tasks FilterCompleted) tasks"
proof -
  have eq: "(status t = Completed) = (\<not> status t = Pending)" for t
    by (cases "status t") simp_all
  have "mset (filter (\<lambda>t. status t = Pending) tasks)
          + mset (filter (\<lambda>t. \<not> status t = Pending) tasks) = mset tasks"
    by (metis mset_filter multiset_partition)
  then have "mset (filter (\<lambda>t. status t = Pending) tasks)
          + mset (filter (\<lambda>t. status t = Completed) tasks) = mset tasks"
    by (simp only: eq)
  then show ?thesis
    by (auto simp: filterTasks_def getFilter_def)
qed

section \<open>Sorting by creation date\<close>

lemma mset_insertSorted: "mset (insertSorted f x ys) = add_mset x (mset ys)"
  by (induction ys) auto

lemma mset_stableSort: "mset (stableSort f xs) = mset xs"
  by (induction xs) (auto simp: mset_insertSorted)

lemma arraySort_returns: "arraySort f xs (stableSort f xs)"
  by (simp add: arraySort_def mset_stableSort)

lemma sortCompare_valid:
  assumes "getTime (createdAt a) \<noteq> None" "getTime (createdAt b) \<noteq> None"
  shows "creationCompare d a b \<noteq> None"
    and "sortCompare (creationCompare d) a b =
           (if d then timeValue b - timeValue a else timeValue a - timeValue b)"
  using assms
  by (auto simp: sortCompare_def creationCompare_def numberMinus_def numberNegate_def
      timeValue_def Let_def)

lemma insertSorted_insort:
  assumes "getTime (createdAt x) \<noteq> None" "\<forall>t\<in>set ys. getTime (createdAt t) \<noteq> None"
  shows "insertSorted (creationCompare d) x ys =
         insort_key (\<lambda>t. if d then - timeValue t else timeValue t) x ys"
  using assms
proof (induction ys)
  case Nil
  then show ?case by simp
next
  case (Cons y ys)
  then show ?case using sortCompare_valid(2)[of x y d] by auto
qed

lemma stableSort_sort_key:
  assumes "\<forall>t\<in>set tasks. getTime (createdAt t) \<noteq> None"
  shows "stableSort (creationCompare d) tasks =
         sort_key (\<lambda>t. if d then - timeValue t else timeValue t) tasks"
  using assms
proof (induction tasks)
  case Nil
  then show ?case by simp
next
  case (Cons x xs)
  then have "stableSort (creationCompare d) xs
               = sort_key (\<lambda>t. if d then - timeValue t else timeValue t) xs"
    by simp
  moreover have "\<forall>t\<in>set (sort_key (\<lambda>t. if d then - timeValue t else timeValue t) xs).
                   getTime (createdAt t) \<noteq> None"
    using Cons.prems by simp
  ultimately show ?case using Cons.prems
    by (simp add: insertSorted_insort)
qed

lemma creationCompare_consistent:
  assumes "\<forall>t\<in>set tasks. getTime (createdAt t) \<noteq> None"
  shows "consistentComparator (creationCompare d) tasks"
  unfolding consistentComparator_def list_all_iff
  using assms by (auto simp: sortCompare_valid)

lemma creationCompare_inconsistent:
  assumes "t \<in> set tasks" "getTime (createdAt t) = None"
  shows "\<not> consistentComparator (creationCompare d) tasks"
proof -
  have "creationCompare d t t = None"
    using assms(2) by (simp add: creationCompare_def numberMinus_def numberNegate_def)
  with assms(1) show ?thesis
    unfolding consistentComparator_def list_all_iff by blast
qed

lemma sortTasksByCreationDate_arraySort:
  "sortTasksByCreationDate tasks d result = arraySort (creationCompare d) tasks result"
  by (simp add: sortTasksByCreationDate_def creationCompare_def[abs_def])

text \<open>The call returns a list, whatever the dates are.\<close>

lemma sortTasksByCreationDate_returns:
  "sortTasksByCreationDate tasks d (stableSort (creationCompare d) tasks)"
  unfolding sortTasksByCreationDate_arraySort by (rule arraySort_returns)

lemma sortTasksByCreationDate_valid:
  assumes "\<forall>t\<in>set tasks. getTime (createdAt t) \<noteq> None"
  shows "sortTasksByCreationDate tasks d result \<longleftrightarrow>
         result = sort_key (\<lambda>t. if d then - timeValue t else timeValue t) tasks"
  unfolding sortTasksByCreationDate_arraySort arraySort_def
  using creationCompare_consistent[OF assms, of d] stableSort_sort_key[OF assms, of d]
  by (auto simp: mset_sort)

lemma sortTasksByCreationDate_invalid:
  assumes "t \<in> set tasks" "getTime (createdAt t) = None"
  shows "sortTasksByCreationDate tasks d result \<longleftrightarrow> mset result = mset tasks"
  unfolding sortTasksByCreationDate_arraySort arraySort_def
  using creationCompare_inconsistent[OF assms, of d] by simp

text \<open>
  Claim C8, as stated: for every task list \<open>sortTasksByCreationDate\<close> returns the tasks
  ordered by \<open>createdAt\<close>, ties in input order. The type \<open>Date\<close> of \<open>createdAt\<close> has the
  Invalid Date, whose time value is NaN. In the list below the task created at 2000
  comes first, a task with an Invalid Date second and the task created at 1000 third.
  Every comparison with the second task yields NaN, which counts as equal, while the
  first task compares after the third: the comparator is not consistent, ECMAScript
  leaves the order to the implementation, and the call may return the list as it is,
  the task of 2000 before the task of 1000. A sort that first looks for a run of
  neighbours in order finds the whole list to be one and returns exactly this.
\<close>

theorem sortTasksByCreationDate_invalid_date_counterexample:
  "map (\<lambda>task. getTime (createdAt task)) invalidDateTasks = [Some 2000, None, Some 1000] \<and>
   sortTasksByCreationDate invalidDateTasks False invalidDateTasks"
proof -
  have "invalidDateTasks ! 1 \<in> set invalidDateTasks" "getTime (createdAt (invalidDateTasks ! 1)) = None"
    by (simp_all add: invalidDateTasks_def)
  from sortTasksByCreationDate_invalid[OF this, of False invalidDateTasks]
  show ?thesis by (simp add: invalidDateTasks_def)
qed

text \<open>
  Claim C8, amended. For every task list whose creation dates are valid dates, as
  \<open>createTask\<close> makes them, \<open>sortTasksByCreationDate\<close> returns a list, and every list it
  returns is a new list with the same tasks, ordered by \<open>createdAt\<close>, ascending by
  default and descending on request, in which, in both directions, the tasks with the
  same \<open>createdAt\<close> keep their input order.
\<close>

theorem sortTasksByCreationDate_stable:
  assumes "\<forall>t\<in>set tasks. getTime (createdAt t) \<noteq> None"
  shows "(\<exists>result. sortTasksByCreationDate tasks descending result) \<and>
         (\<forall>result. sortTasksByCreationDate tasks descending result \<longrightarrow>
            mset result = mset tasks \<and>
            sorted_wrt (\<lambda>a b. if descending then timeValue b \<le> timeValue a
                              else timeValue a \<le> timeValue b) result \<and>
            (\<forall>c. filter (\<lambda>t. createdAt t = c) result = filter (\<lambda>t. createdAt t = c) tasks))"
proof -
  let ?k = "\<lambda>t. if descending then - timeValue t else timeValue t"
  have eq: "sortTasksByCreationDate tasks descending result \<longleftrightarrow> result = sort_key ?k tasks"
    for result
    using assms by (rule sortTasksByCreationDate_valid)
  have "sorted (map ?k (sort_key ?k tasks))" by (rule sorted_sort_key)
  then have s: "sorted_wrt (\<lambda>a b. ?k a \<le> ?k b) (sort_key ?k tasks)"
    by (simp add: sorted_map)
  have "(\<lambda>a b. ?k a \<le> ?k b) = (\<lambda>a b. if descending then timeValue b \<le> timeValue a
                           else timeValue a \<le> timeValue b)"
    by (auto simp: fun_eq_iff)
  with s have s': "sorted_wrt (\<lambda>a b. if descending then timeValue b \<le> timeValue a
                           else timeValue a \<le> timeValue b) (sort_key ?k tasks)" by simp
  have st: "filter (\<lambda>t. createdAt t = c) (sort_key ?k tasks) = filter (\<lambda>t. createdAt t = c) tasks" for c
  proof (cases c)
    case (Date v)
    show ?thesis
    proof (cases v)
      case None
      have "filter (\<lambda>t. createdAt t = c) xs = []" if "\<forall>t\<in>set xs. getTime (createdAt t) \<noteq> None" for xs
        using that Date None by (induction xs) auto
      from this[of tasks] this[of "sort_key ?k tasks"] assms show ?thesis by simp
    next
      case (Some n)
      have *: "filter (\<lambda>t. createdAt t = c) xs = filter (\<lambda>t. ?k t = ?k \<lparr>taskId = [], title = [], status = Pending, createdAt = c, updatedAt = c\<rparr>) xs"
        if "\<forall>t\<in>set xs. getTime (createdAt t) \<noteq> None" for xs
        using that Date Some
        by (intro filter_cong) (auto simp: timeValue_def intro: Date.expand)
      from *[of tasks] *[of "sort_key ?k tasks"] assms show ?thesis
        by (simp add: sort_key_stable)
    qed
  qed
  show ?thesis using eq s' st by (simp add: mset_sort)
qed

theorem sortTasksByCreationDate_stable_witness:
  "sortTasksByCreationDate exampleTasks False
     [exampleTasks ! 1, exampleTasks ! 2, exampleTasks ! 0] \<and>
   map title [exampleTasks ! 1, exampleTasks ! 2, exampleTasks ! 0]
     = [js ''first'', js ''second'', js ''late''] \<and>
   mset [exampleTasks ! 1, exampleTasks ! 2, exampleTasks ! 0] = mset exampleTasks \<and>
   filter (\<lambda>t. createdAt t = Date (Some 1000))
       [exampleTasks ! 1, exampleTasks ! 2, exampleTasks ! 0] =
     filter (\<lambda>t. createdAt t = Date (Some 1000)) exampleTasks \<and>
   sortTasksByCreationDate exampleTasks True exampleTasks"
proof -
  have v: "\<forall>t\<in>set exampleTasks. getTime (createdAt t) \<noteq> None"
    by (simp add: exampleTasks_def)
  have a: "sortTasksByCreationDate exampleTasks False
             [exampleTasks ! 1, exampleTasks ! 2, exampleTasks ! 0]"
    unfolding sortTasksByCreationDate_valid[OF v]
    by (simp add: exampleTasks_def timeValue_def)
  have d: "sortTasksByCreationDate exampleTasks True exampleTasks"
    unfolding sortTasksByCreationDate_valid[OF v]
    by (simp add: exampleTasks_def timeValue_def)
  have t: "map title [exampleTasks ! 1, exampleTasks ! 2, exampleTasks ! 0]
             = [js ''first'', js ''second'', js ''late'']"
    by (simp add: exampleTasks_def)
  from sortTasksByCreationDate_stable[OF v, of False] a d t show ?thesis by blast
qed

section \<open>Double-precision arithmetic\<close>

text \<open>
  \<open>bitLength\<close> and \<open>ilog2\<close> compute the binary exponent; rounding to a double moves a
  number by at most half the spacing of the doubles at its exponent, and never across a
  number that is itself a multiple of that spacing.
\<close>

lemma bitLength_bounds:
  "0 < n \<Longrightarrow> 1 \<le> bitLength n \<and> 2 ^ nat (bitLength n - 1) \<le> n \<and> n < 2 ^ nat (bitLength n)"
proof (induction n rule: bitLength.induct)
  case (1 n)
  show ?case
  proof (cases "n = 1")
    case True
    have "bitLength 0 = 0" by (simp add: bitLength.simps[of 0])
    then have "bitLength 1 = 1" by (simp add: bitLength.simps[of 1])
    with True show ?thesis by simp
  next
    case False
    with 1(2) have m: "0 < n div 2" by simp
    define b where "b = bitLength (n div 2)"
    from 1(1)[OF _ m] 1(2)
    have ih: "1 \<le> b" "2 ^ nat (b - 1) \<le> n div 2" "n div 2 < 2 ^ nat b"
      by (simp_all add: b_def)
    have bl: "bitLength n = 1 + b" using 1(2) by (simp add: b_def bitLength.simps[of n])
    have nb: "nat b = Suc (nat (b - 1))" using ih(1) by simp
    have "(2::int) ^ nat b = 2 * 2 ^ nat (b - 1)" by (subst nb) simp
    also have "\<dots> \<le> 2 * (n div 2)" using ih(2) by simp
    also have "\<dots> \<le> n" by simp
    finally have lo: "2 ^ nat b \<le> n" .
    have "n < 2 * (n div 2) + 2" by simp
    also have "\<dots> \<le> 2 * 2 ^ nat b" using ih(3) by simp
    finally have hi: "n < 2 ^ Suc (nat b)" by simp
    have "nat (1 + b) = Suc (nat b)" using ih(1) by simp
    with lo hi ih(1) bl show ?thesis by simp
  qed
qed

lemma powi_nonneg_eq: "0 \<le> k \<Longrightarrow> (2::rat) powi k = 2 ^ nat k"
  by (simp add: power_int_def)

lemma bitLength_powi:
  assumes "0 < n"
  shows "(2::rat) powi (bitLength n - 1) \<le> of_int n" "of_int n < (2::rat) powi (bitLength n)"
proof -
  from bitLength_bounds[OF assms]
  have b: "1 \<le> bitLength n" "2 ^ nat (bitLength n - 1) \<le> n" "n < 2 ^ nat (bitLength n)" by auto
  have "(2::rat) powi (bitLength n - 1) = of_int (2 ^ nat (bitLength n - 1))"
    using b(1) by (simp add: powi_nonneg_eq)
  also have "\<dots> \<le> of_int n" using b(2) by (simp only: of_int_le_iff)
  finally show "(2::rat) powi (bitLength n - 1) \<le> of_int n" .
  have "(of_int n :: rat) < of_int (2 ^ nat (bitLength n))" using b(3) by (simp only: of_int_less_iff)
  also have "\<dots> = (2::rat) powi (bitLength n)" using b(1) by (simp add: powi_nonneg_eq)
  finally show "of_int n < (2::rat) powi (bitLength n)" .
qed

lemma ilog2_bounds:
  assumes "0 < q"
  shows "2 powi (ilog2 q) \<le> q" "q < 2 powi (ilog2 q + 1)"
proof -
  obtain a b where ab: "quotient_of q = (a, b)" by (cases "quotient_of q")
  then have b: "0 < b" and q: "q = of_int a / of_int b"
    by (auto dest: quotient_of_denom_pos quotient_of_div)
  with assms have a: "0 < a" by (simp add: zero_less_divide_iff)
  define d where "d = bitLength a - bitLength b"
  note A = bitLength_powi[OF a] and B = bitLength_powi[OF b]
  have il: "ilog2 q = (if 2 powi d \<le> q then d else d - 1)"
    by (simp add: ilog2_def ab d_def Let_def)
  have pos: "(0::rat) < 2 powi k" for k by (simp add: zero_less_power_int)
  have lo: "(2::rat) powi (d - 1) \<le> q"
  proof -
    have "(2::rat) powi (d - 1) = 2 powi (bitLength a - 1) / 2 powi (bitLength b)"
      by (simp add: d_def power_int_diff[symmetric] algebra_simps)
    also have "\<dots> \<le> of_int a / of_int b"
      using A(1) B(2) a b pos by (intro frac_le) (auto simp: less_imp_le)
    finally show ?thesis by (simp add: q)
  qed
  have hi: "q < (2::rat) powi (d + 1)"
  proof -
    have "of_int a / of_int b < (2::rat) powi (bitLength a) / 2 powi (bitLength b - 1)"
      using A(2) B(1) a b pos[of "bitLength b - 1"]
      by (intro frac_less) (auto simp: less_imp_le)
    also have "\<dots> = (2::rat) powi (d + 1)"
      by (simp add: d_def power_int_diff[symmetric] algebra_simps)
    finally show ?thesis by (simp add: q)
  qed
  show "2 powi (ilog2 q) \<le> q" using il lo by auto
  show "q < 2 powi (ilog2 q + 1)" using il hi by (auto simp: not_le)
qed

lemma ilog2_le:
  assumes "0 < q" "q < 2 powi (k + 1)"
  shows "ilog2 q \<le> k"
proof (rule ccontr)
  assume "\<not> ilog2 q \<le> k"
  then have "k + 1 \<le> ilog2 q" by simp
  then have "(2::rat) powi (k + 1) \<le> 2 powi (ilog2 q)" by (intro power_int_increasing) auto
  with ilog2_bounds(1)[OF assms(1)] assms(2) show False by simp
qed

lemma roundTiesToEven_error: "\<bar>of_int (roundTiesToEven x) - x\<bar> \<le> 1/2"
proof -
  define f where "f = \<lfloor>x\<rfloor>"
  have "of_int f \<le> x" "x < of_int f + 1" unfolding f_def by linarith+
  then show ?thesis
    unfolding roundTiesToEven_def Let_def f_def[symmetric] by (auto simp: abs_le_iff)
qed

lemma roundTiesToEven_le: "x \<le> of_int N \<Longrightarrow> roundTiesToEven x \<le> N"
proof -
  assume a: "x \<le> of_int N"
  show ?thesis
  proof (cases "x = of_int N")
    case True
    then show ?thesis by (simp add: roundTiesToEven_def)
  next
    case False
    with a have "x < of_int N" by simp
    then have "\<lfloor>x\<rfloor> < N" by (simp add: floor_less_iff)
    then show ?thesis by (auto simp: roundTiesToEven_def Let_def)
  qed
qed

lemma roundTiesToEven_ge: "of_int N \<le> x \<Longrightarrow> N \<le> roundTiesToEven x"
proof -
  assume "of_int N \<le> x"
  then have "N \<le> \<lfloor>x\<rfloor>" by (simp add: le_floor_iff)
  then show ?thesis by (auto simp: roundTiesToEven_def Let_def)
qed

lemma roundToDouble_error:
  assumes "q \<noteq> 0"
  shows "\<bar>roundToDouble q - q\<bar> \<le> 2 powi (max (ilog2 \<bar>q\<bar> - 52) (- 1074)) / 2"
proof -
  define e where "e = max (ilog2 \<bar>q\<bar> - 52) (- 1074)"
  define u where "u = (2::rat) powi e"
  have u: "0 < u" by (simp add: u_def zero_less_power_int)
  have "roundToDouble q - q = (of_int (roundTiesToEven (q / u)) - q / u) * u"
    using assms u by (simp add: roundToDouble_def e_def u_def Let_def algebra_simps)
  then have "\<bar>roundToDouble q - q\<bar> = \<bar>of_int (roundTiesToEven (q / u)) - q / u\<bar> * u"
    using u by (simp add: abs_mult)
  also have "\<dots> \<le> (1/2) * u"
    using roundTiesToEven_error[of "q / u"] u by (intro mult_right_mono) auto
  finally show ?thesis by (simp add: u_def e_def)
qed

lemma roundToDouble_le:
  assumes "0 < q" "q \<le> of_int N" "ilog2 q \<le> 52"
  shows "roundToDouble q \<le> of_int N"
proof -
  define e where "e = max (ilog2 \<bar>q\<bar> - 52) (- 1074)"
  define u where "u = (2::rat) powi e"
  have e: "e \<le> 0" using assms by (simp add: e_def)
  have u: "0 < u" by (simp add: u_def zero_less_power_int)
  have ui: "u = 1 / 2 ^ nat (- e)" using e by (auto simp: u_def power_int_def field_simps)
  define M where "M = N * 2 ^ nat (- e)"
  have "q / u \<le> of_int M" using assms(2) by (simp add: ui M_def mult_right_mono)
  then have "roundTiesToEven (q / u) \<le> M" by (rule roundTiesToEven_le)
  then have "(of_int (roundTiesToEven (q / u)) :: rat) \<le> of_int M" by (simp only: of_int_le_iff)
  then have "of_int (roundTiesToEven (q / u)) * u \<le> of_int M * u"
    using u by (intro mult_right_mono) auto
  also have "of_int M * u = of_int N" by (simp add: M_def ui)
  finally show ?thesis using assms(1) by (simp add: roundToDouble_def e_def u_def Let_def)
qed

lemma roundToDouble_nonneg:
  assumes "0 \<le> q" shows "0 \<le> roundToDouble q"
proof (cases "q = 0")
  case True then show ?thesis by (simp add: roundToDouble_def)
next
  case False
  define u where "u = (2::rat) powi (max (ilog2 \<bar>q\<bar> - 52) (- 1074))"
  have u: "0 < u" by (simp add: u_def zero_less_power_int)
  with assms have "of_int 0 \<le> q / u" by simp
  then have "0 \<le> roundTiesToEven (q / u)" by (rule roundTiesToEven_ge)
  then show ?thesis using False u by (simp add: roundToDouble_def Let_def u_def)
qed

lemma quotient_error:
  assumes "0 < c" "c \<le> t"
  shows "\<bar>numberDivide (of_int c) (of_int t) - of_int c / of_int t\<bar> \<le> 1 / 2 ^ 53"
    and "0 \<le> numberDivide (of_int c) (of_int t)"
    and "numberDivide (of_int c) (of_int t) \<le> 1"
proof -
  define q :: rat where "q = of_int c / of_int t"
  have q: "0 < q" "q \<le> 1" using assms by (simp_all add: q_def)
  then have "q < 2 powi (0 + 1)" by simp
  with q(1) have il: "ilog2 q \<le> 0" by (rule ilog2_le)
  then have "max (ilog2 \<bar>q\<bar> - 52) (- 1074) \<le> - 52" using q(1) by simp
  then have "(2::rat) powi (max (ilog2 \<bar>q\<bar> - 52) (- 1074)) \<le> 2 powi (- 52)"
    by (intro power_int_increasing) auto
  moreover have "\<bar>roundToDouble q - q\<bar> \<le> 2 powi (max (ilog2 \<bar>q\<bar> - 52) (- 1074)) / 2"
    using q(1) by (intro roundToDouble_error) auto
  ultimately have "\<bar>roundToDouble q - q\<bar> \<le> 2 powi (- 52) / 2" by linarith
  then show "\<bar>numberDivide (of_int c) (of_int t) - of_int c / of_int t\<bar> \<le> 1 / 2 ^ 53"
    by (simp add: numberDivide_def q_def)
  show "0 \<le> numberDivide (of_int c) (of_int t)"
    unfolding numberDivide_def using q(1) by (intro roundToDouble_nonneg) (simp add: q_def)
  have "roundToDouble q \<le> of_int 1"
    using q il by (intro roundToDouble_le) auto
  then show "numberDivide (of_int c) (of_int t) \<le> 1" by (simp add: numberDivide_def q_def)
qed

lemma product_error:
  assumes "0 \<le> x" "x \<le> 1"
  shows "\<bar>numberTimes x 100 - x * 100\<bar> \<le> 1 / 2 ^ 47"
    and "0 \<le> numberTimes x 100"
    and "numberTimes x 100 \<le> 100"
proof -
  define q :: rat where "q = x * 100"
  have q: "0 \<le> q" "q \<le> 100" using assms by (simp_all add: q_def)
  show "0 \<le> numberTimes x 100"
    unfolding numberTimes_def using q(1) by (intro roundToDouble_nonneg) (simp add: q_def)
  show "\<bar>numberTimes x 100 - x * 100\<bar> \<le> 1 / 2 ^ 47"
  proof (cases "q = 0")
    case True
    then show ?thesis by (simp add: numberTimes_def q_def roundToDouble_def)
  next
    case False
    with q have qp: "0 < q" by simp
    have "q < 2 powi (6 + 1)" using q(2) by simp
    with qp have "ilog2 q \<le> 6" by (rule ilog2_le)
    then have "max (ilog2 \<bar>q\<bar> - 52) (- 1074) \<le> - 46" using qp by simp
    then have "(2::rat) powi (max (ilog2 \<bar>q\<bar> - 52) (- 1074)) \<le> 2 powi (- 46)"
      by (intro power_int_increasing) auto
    moreover have "\<bar>roundToDouble q - q\<bar> \<le> 2 powi (max (ilog2 \<bar>q\<bar> - 52) (- 1074)) / 2"
      using False by (intro roundToDouble_error) auto
    ultimately have "\<bar>roundToDouble q - q\<bar> \<le> 2 powi (- 46) / 2" by linarith
    then show ?thesis by (simp add: numberTimes_def q_def)
  qed
  show "numberTimes x 100 \<le> 100"
  proof (cases "q = 0")
    case True
    then show ?thesis by (simp add: numberTimes_def q_def roundToDouble_def)
  next
    case False
    with q have qp: "0 < q" by simp
    have "q < 2 powi (6 + 1)" using q(2) by simp
    with qp have "ilog2 q \<le> 6" by (rule ilog2_le)
    then have "roundToDouble q \<le> of_int 100"
      using qp q(2) by (intro roundToDouble_le) auto
    then show ?thesis by (simp add: numberTimes_def q_def)
  qed
qed

lemma percentage_zero: "percentage 0 t = 0"
proof -
  have "\<lfloor>1 / 2 :: rat\<rfloor> = 0" by (simp add: floor_eq_iff)
  then show ?thesis
    by (simp add: percentage_def numberDivide_def numberTimes_def roundToDouble_def Math_round_def)
qed

lemma percentage_range:
  assumes "0 \<le> c" "c \<le> t"
  shows "0 \<le> percentage c t \<and> percentage c t \<le> 100"
proof (cases "c = 0")
  case True
  then show ?thesis by (simp add: percentage_zero)
next
  case False
  with assms have c: "0 < c" by simp
  note Q = quotient_error[OF c assms(2)]
  note P = product_error[OF Q(2) Q(3)]
  have "0 \<le> \<lfloor>numberTimes (numberDivide (of_int c) (of_int t)) 100 + 1/2\<rfloor>"
    using P(2) by (simp add: le_floor_iff)
  moreover have "\<lfloor>numberTimes (numberDivide (of_int c) (of_int t)) 100 + 1/2\<rfloor> < 101"
    using P(3) by (simp add: floor_less_iff)
  ultimately show ?thesis by (simp add: percentage_def Math_round_def)
qed




section \<open>Statistics\<close>

lemma calculateStats_eq:
  "calculateStats tasks =
     \<lparr>total = int (length tasks),
      completed = int (length (filter (\<lambda>task. status task = Completed) tasks)),
      pending = int (length tasks) - int (length (filter (\<lambda>task. status task = Completed) tasks)),
      completionRate =
        (if tasks = [] then 0
         else percentage (int (length (filter (\<lambda>task. status task = Completed) tasks)))
                (int (length tasks)))\<rparr>"
  by (simp add: calculateStats_def percentage_def Let_def)



text \<open>
  Claim C10. The fields of the statistics are consistent: \<open>completed\<close> lies between 0
  and \<open>total\<close>, \<open>pending\<close> is \<open>total - completed\<close> and so not negative, and
  \<open>completionRate\<close> lies between 0 and 100.
\<close>

theorem calculateStats_consistent:
  "0 \<le> completed (calculateStats tasks) \<and>
   completed (calculateStats tasks) \<le> total (calculateStats tasks) \<and>
   pending (calculateStats tasks) = total (calculateStats tasks) - completed (calculateStats tasks) \<and>
   0 \<le> pending (calculateStats tasks) \<and>
   0 \<le> completionRate (calculateStats tasks) \<and>
   completionRate (calculateStats tasks) \<le> 100"
proof -
  define c where "c = int (length (filter (\<lambda>task. status task = Completed) tasks))"
  define t where "t = int (length tasks)"
  have ct: "0 \<le> c" "c \<le> t" by (simp_all add: c_def t_def)
  from percentage_range[OF ct] ct show ?thesis
    by (simp add: calculateStats_eq c_def t_def)
qed




section \<open>Saving\<close>

lemma length_quoteCodeUnit: "1 \<le> length (quoteCodeUnit c)"
  by (simp add: quoteCodeUnit_def unicodeEscape_def)

lemma length_quoteCodeUnits: "length s \<le> length (quoteCodeUnits s)"
proof (induction s rule: quoteCodeUnits.induct)
  case 1
  then show ?case by simp
next
  case (2 c)
  then show ?case using length_quoteCodeUnit[of c] by simp
next
  case (3 c d cs)
  then show ?case using length_quoteCodeUnit[of c] by auto
qed

lemma length_quoteJSONString: "length s < length (quoteJSONString s)"
  using length_quoteCodeUnits[of s] by (simp add: quoteJSONString_def)

lemma length_joinWithComma: "x \<in> set xs \<Longrightarrow> length x \<le> length (joinWithComma xs)"
  by (induction xs rule: joinWithComma.induct) auto

lemma length_stringifyObject:
  assumes "(k, v) \<in> set props"
  shows "length v < length (stringifyObject props)"
proof -
  have "quoteJSONString k @ js '':'' @ quoteJSONString v
          \<in> set (map (\<lambda>(k, v). quoteJSONString k @ js '':'' @ quoteJSONString v) props)"
    using assms by force
  from length_joinWithComma[OF this] length_quoteJSONString[of v]
  show ?thesis by (simp add: stringifyObject_def)
qed

lemma length_JSON_stringify:
  assumes "props \<in> set objects" "(k, v) \<in> set props"
  shows "length v < length (JSON_stringify objects)"
proof -
  have "stringifyObject props \<in> set (map stringifyObject objects)" using assms(1) by simp
  from length_joinWithComma[OF this] length_stringifyObject[OF assms(2)]
  show ?thesis by (simp add: JSON_stringify_def)
qed

lemma toISOString_1000: "toISOString (Date (Some 1000)) = Inr (js ''1970-01-01T00:00:01.000Z'')"
  by code_simp

lemma toISOString_2000: "toISOString (Date (Some 2000)) = Inr (js ''1970-01-01T00:00:02.000Z'')"
  by code_simp

lemma toISOString_3000: "toISOString (Date (Some 3000)) = Inr (js ''1970-01-01T00:00:03.000Z'')"
  by code_simp

lemma save_stores:
  assumes "serializeTasks tasks = Inr objects"
    and "length (JSON_stringify objects) \<le> MAX_STORAGE_SIZE"
    and "length (JSON_stringify objects) \<le> freeSpace st"
  shows "save tasks st =
           (Inr (), st\<lparr>setItemCalls := setItemCalls st + 1,
                      items := (items st)(STORAGE_KEY \<mapsto> JSON_stringify objects)\<rparr>)"
  using assms by (simp add: save_def setItem_def Let_def)

lemma save_invalid_date:
  assumes "serializeTasks tasks = Inl e" "errorName e \<noteq> ''QuotaExceededError''"
  shows "save tasks st = (Inl (Error (''Failed to save tasks: '' @ errorMessage e)), st)"
  using assms by (cases e) (simp add: save_def)

text \<open>
  Claim C5. When the serialized collection is longer than the ceiling
  \<open>MAX_STORAGE_SIZE\<close>, \<open>save\<close> fails with the error of the size limit, whose message the
  \<open>catch\<close> clause prefixes, and returns the storage as it was: the stored items are the
  old ones and \<open>setItem\<close> has not been called.
\<close>

theorem save_over_ceiling_fails_before_write:
  assumes "serializeTasks tasks = Inr objects"
    and "MAX_STORAGE_SIZE < length (JSON_stringify objects)"
  shows "save tasks st =
           (Inl (Error ''Failed to save tasks: Data exceeds maximum storage size''), st)"
  using assms by (simp add: save_def Let_def Error_def)

theorem save_over_ceiling_fails_before_write_witness:
  "save [hugeTask] usedStorage =
     (Inl (Error ''Failed to save tasks: Data exceeds maximum storage size''), usedStorage) \<and>
   getItem usedStorage STORAGE_KEY = Some (js ''[]'') \<and>
   setItemCalls usedStorage = 1"
proof -
  define objects where
    "objects = [[(js ''id'', taskId hugeTask), (js ''title'', title hugeTask),
                 (js ''status'', statusString (status hugeTask)),
                 (js ''createdAt'', js ''1970-01-01T00:00:01.000Z''),
                 (js ''updatedAt'', js ''1970-01-01T00:00:01.000Z'')]]"
  have s: "serializeTasks [hugeTask] = Inr objects"
    by (simp add: serializeTask_def hugeTask_def exampleTask_def toISOString_1000 objects_def)
  have "length (title hugeTask) < length (JSON_stringify objects)"
    by (rule length_JSON_stringify[of "hd objects" objects "js ''title''"])
       (simp_all add: objects_def)
  moreover have "length (title hugeTask) = 5242880" by (simp add: hugeTask_def)
  ultimately have m: "MAX_STORAGE_SIZE < length (JSON_stringify objects)"
    by (simp add: MAX_STORAGE_SIZE_def)
  from save_over_ceiling_fails_before_write[OF s m, of usedStorage] show ?thesis
    by (simp add: usedStorage_def getItem_def)
qed

section \<open>Loading\<close>

lemma deserializeTask_without_receiver: "deserializeTask None Date_parse data = None"
  by (simp add: deserializeTask_def)

lemma deserializeTask_with_receiver:
  "deserializeTask (Some repository) Date_parse data =
     (if isValidTaskData data
      then Some \<lparr>taskId = stringValue (getProperty data ''id''),
                 title = stringValue (getProperty data ''title''),
                 status = statusValue (getProperty data ''status''),
                 createdAt = Date (Date_parse (stringValue (getProperty data ''createdAt''))),
                 updatedAt = Date (Date_parse (stringValue (getProperty data ''updatedAt'')))\<rparr>
      else None)"
  by (simp add: deserializeTask_def)

lemma typeof_string: "typeof v = ''string'' \<longleftrightarrow> (\<exists>s. v = Some (JString s))"
  by (cases v rule: typeof.cases) simp_all

lemma isValidTaskData_iff:
  "isValidTaskData data \<longleftrightarrow>
     (\<exists>props i t s c u.
        data = JObject props \<and>
        map_of props (js ''id'') = Some (JString i) \<and>
        map_of props (js ''title'') = Some (JString t) \<and>
        map_of props (js ''status'') = Some (JString s) \<and>
        (s = js ''pending'' \<or> s = js ''completed'') \<and>
        map_of props (js ''createdAt'') = Some (JString c) \<and>
        map_of props (js ''updatedAt'') = Some (JString u))"
  by (cases data) (auto simp: isValidTaskData_def getProperty_def typeof_string)

text \<open>
  Called on the repository, \<open>deserializeTask\<close> reads a serialized task back as it was,
  provided \<open>Date.parse\<close> returns the time values that \<open>toISOString\<close> printed.
\<close>

lemma statusValue_statusString: "statusValue (Some (JString (statusString s))) = s"
  by (cases s) (simp_all add: statusValue_def statusString_def js_def)

lemma isValidTaskData_serialized:
  "isValidTaskData
     (objectOf [(js ''id'', i), (js ''title'', t), (js ''status'', statusString s),
                (js ''createdAt'', c), (js ''updatedAt'', u)])"
  by (cases s)
     (simp_all add: isValidTaskData_def objectOf_def getProperty_def statusString_def js_def)

lemma deserializeTask_serializeTask:
  assumes "serializeTask this task = Inr props"
    and "toISOString (createdAt task) = Inr c" "Date_parse c = getTime (createdAt task)"
    and "toISOString (updatedAt task) = Inr u" "Date_parse u = getTime (updatedAt task)"
  shows "deserializeTask (Some repository) Date_parse (objectOf props) = Some task"
proof -
  have p: "props = [(js ''id'', taskId task), (js ''title'', title task),
                    (js ''status'', statusString (status task)),
                    (js ''createdAt'', c), (js ''updatedAt'', u)]"
    using assms(1,2,4) by (simp add: serializeTask_def)
  have g: "getProperty (objectOf props) ''id'' = Some (JString (taskId task))"
    "getProperty (objectOf props) ''title'' = Some (JString (title task))"
    "getProperty (objectOf props) ''status'' = Some (JString (statusString (status task)))"
    "getProperty (objectOf props) ''createdAt'' = Some (JString c)"
    "getProperty (objectOf props) ''updatedAt'' = Some (JString u)"
    by (simp_all add: p objectOf_def getProperty_def js_def)
  have "isValidTaskData (objectOf props)" unfolding p by (rule isValidTaskData_serialized)
  then show ?thesis
    unfolding deserializeTask_with_receiver
    by (simp add: g stringValue_def statusValue_statusString assms(3,5))
qed

lemma findAll_returns_nothing: "findAll JSON_parse Date_parse st = []"
proof -
  have "filter (\<lambda>r. r \<noteq> None) (map (deserializeTask None Date_parse) elements) = []"
    for elements
    by (induction elements) (simp_all add: deserializeTask_without_receiver)
  then show ?thesis
    by (simp add: findAll_def split: option.splits sum.splits json.splits)
qed

lemma serializeTasks_exampleTasks: "serializeTasks exampleTasks = Inr exampleObjects"
  by (simp add: exampleTasks_def exampleObjects_def serializeTask_def statusString_def
      toISOString_1000 toISOString_2000 toISOString_3000)

lemma length_exampleObjects: "length (JSON_stringify exampleObjects) = 405"
  by code_simp

text \<open>
  Claim C2. Saving a sequence of valid tasks and loading it again returns the same
  sequence. The three example tasks are saved into the empty storage: \<open>save\<close> succeeds
  and the storage holds a text under the storage key. \<open>findAll\<close> then returns no task,
  whatever the parsers of the platform return: \<open>parsed.map(this.deserializeTask)\<close> calls
  \<open>deserializeTask\<close> without its receiver, the read of \<open>this.isValidTaskData\<close> throws, the
  \<open>catch\<close> clause of \<open>deserializeTask\<close> answers \<open>null\<close> for every element, and
  \<open>filter(Boolean)\<close> drops them all (\<open>findAll_returns_nothing\<close>). Called with its
  receiver, \<open>deserializeTask\<close> would return each task (\<open>deserializeTask_serializeTask\<close>).
\<close>

theorem save_then_findAll_loses_tasks:
  "fst (save exampleTasks emptyStorage) = Inr () \<and>
   getItem (snd (save exampleTasks emptyStorage)) STORAGE_KEY =
     Some (JSON_stringify exampleObjects) \<and>
   findAll JSON_parse Date_parse (snd (save exampleTasks emptyStorage)) = []"
proof -
  have "save exampleTasks emptyStorage =
          (Inr (), emptyStorage\<lparr>setItemCalls := setItemCalls emptyStorage + 1,
             items := (items emptyStorage)(STORAGE_KEY \<mapsto> JSON_stringify exampleObjects)\<rparr>)"
    using serializeTasks_exampleTasks
    by (rule save_stores)
       (simp_all add: length_exampleObjects MAX_STORAGE_SIZE_def emptyStorage_def)
  then show ?thesis by (simp add: getItem_def findAll_returns_nothing)
qed

text \<open>
  Claim C3. Loading validates every stored element on its own, keeps the valid ones and
  drops the others, so that a storage with one valid record and one record without
  \<open>status\<close> gives the one valid record. \<open>isValidTaskData\<close> accepts the first record and
  rejects the second, and \<open>deserializeTask\<close> called on the repository turns the first
  into a task; but \<open>findAll\<close> calls it without the receiver and returns no task at all
  from that storage. The cause is the one of claim C2.
\<close>

theorem findAll_drops_valid_record:
  "isValidTaskData validRecord \<and>
   \<not> isValidTaskData recordMissingStatus \<and>
   deserializeTask (Some LocalStorageTaskRepository) Date_parse validRecord =
     Some \<lparr>taskId = js ''task_1000_b'', title = js ''first'', status = Pending,
           createdAt = Date (Date_parse (js ''1970-01-01T00:00:01.000Z'')),
           updatedAt = Date (Date_parse (js ''1970-01-01T00:00:01.000Z''))\<rparr> \<and>
   getItem storageWithRecords STORAGE_KEY =
     Some (JSON_stringify [validRecordProperties, propertiesMissingStatus]) \<and>
   parseStoredRecords (JSON_stringify [validRecordProperties, propertiesMissingStatus]) =
     Inr (JArray [validRecord, recordMissingStatus]) \<and>
   findAll parseStoredRecords Date_parse storageWithRecords = []"
proof -
  have v: "isValidTaskData validRecord"
    by (simp add: isValidTaskData_def validRecord_def objectOf_def validRecordProperties_def
        getProperty_def js_def)
  have m: "\<not> isValidTaskData recordMissingStatus"
    by (simp add: isValidTaskData_def recordMissingStatus_def objectOf_def
        propertiesMissingStatus_def getProperty_def js_def)
  have d: "deserializeTask (Some LocalStorageTaskRepository) Date_parse validRecord =
     Some \<lparr>taskId = js ''task_1000_b'', title = js ''first'', status = Pending,
           createdAt = Date (Date_parse (js ''1970-01-01T00:00:01.000Z'')),
           updatedAt = Date (Date_parse (js ''1970-01-01T00:00:01.000Z''))\<rparr>"
    unfolding deserializeTask_with_receiver using v
    by (simp add: validRecord_def objectOf_def validRecordProperties_def getProperty_def
        stringValue_def statusValue_def js_def)
  have g: "getItem storageWithRecords STORAGE_KEY =
     Some (JSON_stringify [validRecordProperties, propertiesMissingStatus])"
    by (simp add: getItem_def storageWithRecords_def)
  have p: "parseStoredRecords (JSON_stringify [validRecordProperties, propertiesMissingStatus]) =
     Inr (JArray [validRecord, recordMissingStatus])"
    by (simp add: parseStoredRecords_def)
  from v m d g p show ?thesis by (simp add: findAll_returns_nothing)
qed

end
